theory Spec2Isabelle
  imports Main
begin

section \<open>The patch engine of MaaFrameworkUpdater\<close>

text \<open>
  The development embeds \<^verbatim>\<open>process_diff_content\<close> and \<^verbatim>\<open>apply_patch\<close> of
  \<^verbatim>\<open>src/main.py\<close>. The parsed patch set comes from the library \<^verbatim>\<open>unidiff\<close>; the
  records below hold exactly the attributes of its objects that \<^verbatim>\<open>apply_patch\<close>
  reads. A tree is a map from paths, relative to \<^verbatim>\<open>base_dir\<close>, to the bytes of regular
  files. Every file is read and written through Python's text layer (\<^verbatim>\<open>open\<close> in text
  mode with \<^verbatim>\<open>encoding="utf-8"\<close>); a Python \<^verbatim>\<open>str\<close> is represented by its UTF-8
  encoding. Paths and line separators are those of POSIX. Failures of the storage other
  than a missing file (permissions, missing parent directories) are below the model.
\<close>

subsection \<open>Data model\<close>

text \<open>A line of a hunk; \<open>line_value\<close> is the attribute \<^verbatim>\<open>value\<close> of the library's
  \<^verbatim>\<open>Line\<close>, and a line number that is not an integer is \<open>None\<close>.\<close>

record diff_line =
  is_removed :: bool
  is_added :: bool
  source_line_no :: "int option"
  target_line_no :: "int option"
  line_value :: string

type_synonym hunk = "diff_line list"

record patched_file =
  path :: string
  target_file :: string
  is_removed_file :: bool
  is_rename :: bool
  is_added_file :: bool
  hunks :: "hunk list"

datatype error =
    IndexError
  | FileNotFoundError string
  | UnicodeDecodeError
  | ParseError
  | JSONError
  | TypeError

type_synonym tree = "string \<rightharpoonup> string"

subsection \<open>Python list operations\<close>

text \<open>
  \<^verbatim>\<open>list.pop(i)\<close>: a negative index counts from the end; an index outside the list
  raises \<^verbatim>\<open>IndexError\<close>.
\<close>

definition py_pop :: "'a list \<Rightarrow> int \<Rightarrow> error + 'a list" where
  "py_pop xs i =
     (let n = int (length xs); j = (if i < 0 then i + n else i)
      in if 0 \<le> j \<and> j < n then Inr (take (nat j) xs @ drop (Suc (nat j)) xs)
         else Inl IndexError)"

text \<open>
  \<^verbatim>\<open>list.insert(i, v)\<close> never raises: a negative index counts from the end, and the
  resulting position is clamped to the list.
\<close>

definition py_insert :: "'a list \<Rightarrow> int \<Rightarrow> 'a \<Rightarrow> 'a list" where
  "py_insert xs i v =
     (let n = int (length xs); j0 = (if i < 0 then i + n else i);
          j = (if j0 < 0 then 0 else if n < j0 then n else j0)
      in take (nat j) xs @ v # drop (nat j) xs)"

subsection \<open>The text layer\<close>

text \<open>Reading in text mode with universal newlines: \<^verbatim>\<open>\r\n\<close> and a lone \<^verbatim>\<open>\r\<close>
  become \<^verbatim>\<open>\n\<close>.\<close>

fun universal_newlines :: "string \<Rightarrow> string" where
  "universal_newlines [] = []"
| "universal_newlines [c] = (if c = CHR 0x0D then [CHR 0x0A] else [c])"
| "universal_newlines (c # c' # cs) =
     (if c = CHR 0x0D \<and> c' = CHR 0x0A then CHR 0x0A # universal_newlines cs
      else if c = CHR 0x0D then CHR 0x0A # universal_newlines (c' # cs)
      else c # universal_newlines (c' # cs))"

definition byte_in :: "nat \<Rightarrow> nat \<Rightarrow> string \<Rightarrow> nat \<Rightarrow> bool" where
  "byte_in lo hi bs i = (i < length bs \<and> lo \<le> of_char (bs ! i) \<and> of_char (bs ! i) \<le> hi)"

text \<open>The byte sequences that the strict UTF-8 codec decodes (no overlong forms, no
  surrogates, nothing beyond U+10FFFF).\<close>

fun utf8_valid :: "string \<Rightarrow> bool" where
  "utf8_valid [] = True"
| "utf8_valid (b # bs) =
     (let n = of_char b :: nat in
      if n < 0x80 then utf8_valid bs
      else if 0xC2 \<le> n \<and> n \<le> 0xDF then
        byte_in 0x80 0xBF bs 0 \<and> utf8_valid (drop 1 bs)
      else if n = 0xE0 then
        byte_in 0xA0 0xBF bs 0 \<and> byte_in 0x80 0xBF bs 1 \<and> utf8_valid (drop 2 bs)
      else if (0xE1 \<le> n \<and> n \<le> 0xEC) \<or> n = 0xEE \<or> n = 0xEF then
        byte_in 0x80 0xBF bs 0 \<and> byte_in 0x80 0xBF bs 1 \<and> utf8_valid (drop 2 bs)
      else if n = 0xED then
        byte_in 0x80 0x9F bs 0 \<and> byte_in 0x80 0xBF bs 1 \<and> utf8_valid (drop 2 bs)
      else if n = 0xF0 then
        byte_in 0x90 0xBF bs 0 \<and> byte_in 0x80 0xBF bs 1 \<and> byte_in 0x80 0xBF bs 2 \<and>
        utf8_valid (drop 3 bs)
      else if 0xF1 \<le> n \<and> n \<le> 0xF3 then
        byte_in 0x80 0xBF bs 0 \<and> byte_in 0x80 0xBF bs 1 \<and> byte_in 0x80 0xBF bs 2 \<and>
        utf8_valid (drop 3 bs)
      else if n = 0xF4 then
        byte_in 0x80 0x8F bs 0 \<and> byte_in 0x80 0xBF bs 1 \<and> byte_in 0x80 0xBF bs 2 \<and>
        utf8_valid (drop 3 bs)
      else False)"

definition decode_text :: "string \<Rightarrow> error + string" where
  "decode_text bytes =
     (if utf8_valid bytes then Inr (universal_newlines bytes) else Inl UnicodeDecodeError)"

text \<open>Writing in text mode: \<^verbatim>\<open>\n\<close> becomes \<^verbatim>\<open>os.linesep\<close>, which is \<^verbatim>\<open>\n\<close>, and the
  text is encoded as UTF-8, which it is already.\<close>

definition encode_text :: "string \<Rightarrow> string" where
  "encode_text text = text"

text \<open>\<^verbatim>\<open>open(p, "r", encoding="utf-8")\<close> followed by reading the whole file, and
  \<^verbatim>\<open>open(p, "w", encoding="utf-8")\<close> followed by writing a text.\<close>

definition read_text :: "tree \<Rightarrow> string \<Rightarrow> error + string" where
  "read_text fs p =
     (case fs p of
        None \<Rightarrow> Inl (FileNotFoundError p)
      | Some bytes \<Rightarrow> decode_text bytes)"

definition write_text :: "tree \<Rightarrow> string \<Rightarrow> string \<Rightarrow> tree" where
  "write_text fs p text = fs(p \<mapsto> encode_text text)"

text \<open>Bytes that the text layer reads and writes unchanged.\<close>

definition plain_text :: "string \<Rightarrow> bool" where
  "plain_text bytes = (utf8_valid bytes \<and> CHR 0x0D \<notin> set bytes)"

subsection \<open>Text files as line sequences\<close>

text \<open>\<^verbatim>\<open>readlines\<close> cuts the text after every newline and keeps the terminators.\<close>

fun readlines :: "string \<Rightarrow> string list" where
  "readlines [] = []"
| "readlines (c # cs) =
     (if c = CHR 0x0A then [c] # readlines cs
      else (case readlines cs of [] \<Rightarrow> [[c]] | l # ls \<Rightarrow> (c # l) # ls))"

definition writelines :: "string list \<Rightarrow> string" where
  "writelines ls = concat ls"

subsection \<open>The content edit (lines 273--295)\<close>

text \<open>
  First pass: the hunks in reverse, each hunk's lines in reverse; a removed line whose
  \<^verbatim>\<open>source_line_no\<close> is an integer is popped at that number minus one.
\<close>

fun remove_lines :: "diff_line list \<Rightarrow> string list \<Rightarrow> error + string list" where
  "remove_lines [] content = Inr content"
| "remove_lines (d # ds) content =
     (if is_removed d then
        (case source_line_no d of
           Some n \<Rightarrow>
             (case py_pop content (n - 1) of
                Inl e \<Rightarrow> Inl e
              | Inr content' \<Rightarrow> remove_lines ds content')
         | None \<Rightarrow> remove_lines ds content)
      else remove_lines ds content)"

fun remove_hunks :: "hunk list \<Rightarrow> string list \<Rightarrow> error + string list" where
  "remove_hunks [] content = Inr content"
| "remove_hunks (h # hs) content =
     (case remove_lines (rev h) content of
        Inl e \<Rightarrow> Inl e
      | Inr content' \<Rightarrow> remove_hunks hs content')"

text \<open>
  Second pass: the hunks in order, each hunk's lines in order; an added line whose
  \<^verbatim>\<open>target_line_no\<close> is an integer is inserted at that number minus one.
\<close>

fun add_lines :: "diff_line list \<Rightarrow> string list \<Rightarrow> string list" where
  "add_lines [] content = content"
| "add_lines (d # ds) content =
     (if is_added d then
        (case target_line_no d of
           Some n \<Rightarrow> add_lines ds (py_insert content (n - 1) (line_value d))
         | None \<Rightarrow> add_lines ds content)
      else add_lines ds content)"

fun add_hunks :: "hunk list \<Rightarrow> string list \<Rightarrow> string list" where
  "add_hunks [] content = content"
| "add_hunks (h # hs) content = add_hunks hs (add_lines h content)"

definition patch_lines :: "patched_file \<Rightarrow> string list \<Rightarrow> error + string list" where
  "patch_lines pf original_content =
     (case remove_hunks (rev (hunks pf)) original_content of
        Inl e \<Rightarrow> Inl e
      | Inr content \<Rightarrow> Inr (add_hunks (hunks pf) content))"

subsection \<open>The per-file procedure (lines 229--302)\<close>

definition os_path_exists :: "tree \<Rightarrow> string \<Rightarrow> bool" where
  "os_path_exists fs p = (fs p \<noteq> None)"

definition os_remove :: "tree \<Rightarrow> string \<Rightarrow> tree" where
  "os_remove fs p = fs(p := None)"

text \<open>\<^verbatim>\<open>os.rename\<close> of an existing file; a file already at the destination is replaced.\<close>

definition os_rename :: "tree \<Rightarrow> string \<Rightarrow> string \<Rightarrow> tree" where
  "os_rename fs src dst = (fs(src := None))(dst := fs src)"

text \<open>Lines 270--298: read the lines, edit them, write them back.\<close>

definition edit_file :: "patched_file \<Rightarrow> string \<Rightarrow> tree \<Rightarrow> error option \<times> tree" where
  "edit_file pf current_file_path fs =
     (case read_text fs current_file_path of
        Inl e \<Rightarrow> (Some e, fs)
      | Inr text \<Rightarrow>
          (case patch_lines pf (readlines text) of
             Inl e \<Rightarrow> (Some e, fs)
           | Inr content \<Rightarrow> (None, write_text fs current_file_path (writelines content))))"

text \<open>Lines 258--268: a missing file is created empty when the patch adds it, and is
  skipped otherwise.\<close>

definition add_or_edit :: "patched_file \<Rightarrow> string \<Rightarrow> tree \<Rightarrow> error option \<times> tree" where
  "add_or_edit pf current_file_path fs =
     (if \<not> os_path_exists fs current_file_path then
        (if is_added_file pf then edit_file pf current_file_path (write_text fs current_file_path [])
         else (None, fs))
      else edit_file pf current_file_path fs)"

text \<open>One iteration of the loop over the patch set; \<open>None\<close> is a completed iteration
  (a \<^verbatim>\<open>continue\<close> included), \<open>Some e\<close> an exception that leaves the loop.\<close>

definition patch_file :: "patched_file \<Rightarrow> tree \<Rightarrow> error option \<times> tree" where
  "patch_file pf fs =
     (let current_file_path = path pf in
      if is_removed_file pf then
        (if os_path_exists fs current_file_path then (None, os_remove fs current_file_path)
         else (None, fs))
      else if is_rename pf then
        (if os_path_exists fs current_file_path then
           add_or_edit pf (target_file pf) (os_rename fs current_file_path (target_file pf))
         else (None, fs))
      else add_or_edit pf current_file_path fs)"

fun patch_files :: "patched_file list \<Rightarrow> tree \<Rightarrow> error option \<times> tree" where
  "patch_files [] fs = (None, fs)"
| "patch_files (pf # pfs) fs =
     (case patch_file pf fs of
        (Some e, fs') \<Rightarrow> (Some e, fs')
      | (None, fs') \<Rightarrow> patch_files pfs fs')"

subsection \<open>The manifest and \<^verbatim>\<open>apply_patch\<close> (lines 211--316)\<close>

datatype json =
    JNull
  | JBool bool
  | JNum int
  | JStr string
  | JArr "json list"
  | JObj "(string \<times> json) list"

text \<open>\<^verbatim>\<open>data[k] = v\<close> on a dict: an existing key keeps its place, a new key goes last.\<close>

fun dict_set :: "string \<Rightarrow> json \<Rightarrow> (string \<times> json) list \<Rightarrow> (string \<times> json) list" where
  "dict_set k v [] = [(k, v)]"
| "dict_set k v ((k', v') # kvs) =
     (if k = k' then (k, v) # kvs else (k', v') # dict_set k v kvs)"

text \<open>The library functions \<^verbatim>\<open>PatchSet.from_string\<close>, \<^verbatim>\<open>json.load\<close> and
  \<^verbatim>\<open>json.dump\<close> are parameters of the model.\<close>

record libs =
  from_string :: "string \<Rightarrow> error + patched_file list"
  json_load :: "string \<Rightarrow> error + json"
  json_dump :: "json \<Rightarrow> string"

record updater =
  base_dir :: string
  diff_dir :: string
  diff_filename :: string
  current_version :: string
  latest_version :: string

text \<open>The process state: the working directory, the directories that exist, and the
  regular files seen from \<^verbatim>\<open>base_dir\<close>.\<close>

record world =
  cwd :: string
  dirs :: "string list"
  files :: tree

text \<open>\<^verbatim>\<open>os.path.join\<close> of two components (POSIX).\<close>

definition os_path_join :: "string \<Rightarrow> string \<Rightarrow> string" where
  "os_path_join a b =
     (if b \<noteq> [] \<and> hd b = CHR ''/'' then b
      else if a = [] \<or> last a = CHR ''/'' then a @ b
      else a @ ''/'' @ b)"

definition os_chdir :: "world \<Rightarrow> string \<Rightarrow> error + world" where
  "os_chdir w d =
     (let target = os_path_join (cwd w) d
      in if target \<in> set (dirs w) then Inr (w\<lparr>cwd := target\<rparr>)
         else Inl (FileNotFoundError target))"

text \<open>Lines 304--309: the version of the manifest is replaced and the file rewritten.\<close>

definition update_version :: "libs \<Rightarrow> string \<Rightarrow> tree \<Rightarrow> error + tree" where
  "update_version lib latest fs =
     (case read_text fs ''interface.json'' of
        Inl e \<Rightarrow> Inl e
      | Inr text \<Rightarrow>
          (case json_load lib text of
             Inl e \<Rightarrow> Inl e
           | Inr (JObj kvs) \<Rightarrow>
               Inr (write_text fs ''interface.json''
                      (json_dump lib (JObj (dict_set ''version'' (JStr latest) kvs))))
           | Inr _ \<Rightarrow> Inl TypeError))"

text \<open>The \<^verbatim>\<open>finally\<close> clause: an exception of its \<^verbatim>\<open>os.chdir\<close> leaves the call
  (\<open>Inl\<close>); otherwise the call returns the pending result.\<close>

definition finally_chdir :: "string \<Rightarrow> bool \<Rightarrow> world \<Rightarrow> (error + bool) \<times> world" where
  "finally_chdir original_cwd r w =
     (case os_chdir w original_cwd of
        Inl e \<Rightarrow> (Inl e, w)
      | Inr w' \<Rightarrow> (Inr r, w'))"

definition apply_patch :: "libs \<Rightarrow> updater \<Rightarrow> world \<Rightarrow> (error + bool) \<times> world" where
  "apply_patch lib self w =
     (let original_cwd = cwd w in
      case os_chdir w (base_dir self) of
        Inl e \<Rightarrow> finally_chdir original_cwd False w
      | Inr w1 \<Rightarrow>
          (case read_text (files w1) (os_path_join (diff_dir self) (diff_filename self)) of
             Inl e \<Rightarrow> finally_chdir original_cwd False w1
           | Inr patch_content \<Rightarrow>
               (case from_string lib patch_content of
                  Inl e \<Rightarrow> finally_chdir original_cwd False w1
                | Inr patchset \<Rightarrow>
                    (case patch_files patchset (files w1) of
                       (Some e, fs') \<Rightarrow> finally_chdir original_cwd False (w1\<lparr>files := fs'\<rparr>)
                     | (None, fs') \<Rightarrow>
                         (case update_version lib (latest_version self) fs' of
                            Inl e \<Rightarrow> finally_chdir original_cwd False (w1\<lparr>files := fs'\<rparr>)
                          | Inr fs'' \<Rightarrow>
                              (case os_chdir (w1\<lparr>files := fs''\<rparr>) original_cwd of
                                 Inl e \<Rightarrow>
                                   finally_chdir original_cwd False (w1\<lparr>files := fs''\<rparr>)
                               | Inr w2 \<Rightarrow> finally_chdir original_cwd True w2))))))"

subsection \<open>\<^verbatim>\<open>process_diff_content\<close> (lines 192--209)\<close>

text \<open>\<^verbatim>\<open>str.replace(old, new)\<close>: every occurrence of \<open>old\<close>, found from the left
  without overlap, becomes \<open>new\<close>.\<close>

fun str_replace :: "string \<Rightarrow> string \<Rightarrow> string \<Rightarrow> string" where
  "str_replace old new [] = (if old = [] then new else [])"
| "str_replace old new (c # cs) =
     (if take (length old) (c # cs) = old
      then new @ (if old = [] then c # str_replace old new cs
                  else str_replace old new (drop (length old - 1) cs))
      else c # str_replace old new cs)"

definition process_diff_content :: "updater \<Rightarrow> string \<Rightarrow> tree \<Rightarrow> bool \<times> updater \<times> tree" where
  "process_diff_content self diff_content fs =
     (let processed_content = str_replace ''assets/'' [] diff_content;
          self' = self\<lparr>diff_filename :=
                    current_version self @ ''_'' @ latest_version self @ ''.diff''\<rparr>
      in (True, self',
          write_text fs (os_path_join (diff_dir self') (diff_filename self')) processed_content))"

subsection \<open>The records of the parser\<close>

text \<open>
  Modelled from the spec: the diff parser (the library \<^verbatim>\<open>unidiff\<close>) is not part of the
  sources. Section 4.1 gives the change kinds: a target that is the null device is a
  removal, a source that is the null device an addition, differing names a rename. The
  spec is silent on the attribute \<^verbatim>\<open>path\<close> that \<^verbatim>\<open>apply_patch\<close> reads; it is taken as
  the library computes it from the two header paths: the source path, or the target path
  for an addition or a rename, without a leading \<^verbatim>\<open>a/\<close> or \<^verbatim>\<open>b/\<close> (inside quotes, if the
  path is quoted). The attribute \<^verbatim>\<open>target_file\<close> is the target header path as it stands.
\<close>

definition DEV_NULL :: string where
  "DEV_NULL = ''/dev/null''"

definition unidiff_is_rename :: "string \<Rightarrow> string \<Rightarrow> bool" where
  "unidiff_is_rename source_file target_file' =
     (source_file \<noteq> DEV_NULL \<and> target_file' \<noteq> DEV_NULL \<and>
      drop 2 source_file \<noteq> drop 2 target_file')"

definition vcs_path :: "string \<Rightarrow> string" where
  "vcs_path filepath =
     (let quoted = (filepath \<noteq> [] \<and> hd filepath = CHR 0x22 \<and> last filepath = CHR 0x22);
          filepath1 = (if quoted then butlast (tl filepath) else filepath);
          filepath2 = (if take 2 filepath1 = ''a/'' \<or> take 2 filepath1 = ''b/''
                       then drop 2 filepath1 else filepath1)
      in if quoted then CHR 0x22 # filepath2 @ [CHR 0x22] else filepath2)"

definition unidiff_path :: "string \<Rightarrow> string \<Rightarrow> string" where
  "unidiff_path source_file target_file' =
     vcs_path (if source_file = DEV_NULL \<or>
                  (unidiff_is_rename source_file target_file' \<and> target_file' \<noteq> DEV_NULL)
               then target_file' else source_file)"

text \<open>The record for the header paths \<open>source_file\<close> and \<open>target_file'\<close>;
  \<open>empty_source\<close> (\<open>empty_target\<close>) says that the file has exactly one hunk and that its
  source (target) range is \<^verbatim>\<open>0,0\<close>.\<close>

definition parsed_file ::
  "string \<Rightarrow> string \<Rightarrow> bool \<Rightarrow> bool \<Rightarrow> hunk list \<Rightarrow> patched_file" where
  "parsed_file source_file target_file' empty_source empty_target hs =
     \<lparr>path = unidiff_path source_file target_file', target_file = target_file',
      is_removed_file = (target_file' = DEV_NULL \<or> empty_target),
      is_rename = unidiff_is_rename source_file target_file',
      is_added_file = (source_file = DEV_NULL \<or> empty_source), hunks = hs\<rparr>"

subsection \<open>Diffs as edit scripts\<close>

datatype kind = Context | Added | Removed

text \<open>
  Modelled from the spec: the diff parser (the library \<^verbatim>\<open>unidiff\<close>) is not part of the
  sources. Following section 4.1, each body line is classified by its marker and receives
  the running source and target line numbers, seeded from the hunk's start and advanced
  per Context/Removed and per Context/Added line; following section 3, the text of a line
  carries its terminator exactly as it stands in the file.
\<close>

fun number_lines :: "int \<Rightarrow> int \<Rightarrow> (kind \<times> string) list \<Rightarrow> diff_line list" where
  "number_lines s t [] = []"
| "number_lines s t ((Context, x) # es) =
     \<lparr>is_removed = False, is_added = False, source_line_no = Some s,
      target_line_no = Some t, line_value = x\<rparr> # number_lines (s + 1) (t + 1) es"
| "number_lines s t ((Added, x) # es) =
     \<lparr>is_removed = False, is_added = True, source_line_no = None,
      target_line_no = Some t, line_value = x\<rparr> # number_lines s (t + 1) es"
| "number_lines s t ((Removed, x) # es) =
     \<lparr>is_removed = True, is_added = False, source_line_no = Some s,
      target_line_no = None, line_value = x\<rparr> # number_lines (s + 1) t es"

text \<open>The file an edit script starts from and the file it describes.\<close>

definition source_lines :: "(kind \<times> string) list \<Rightarrow> string list" where
  "source_lines es = map snd (filter (\<lambda>e. fst e \<noteq> Added) es)"

definition target_lines :: "(kind \<times> string) list \<Rightarrow> string list" where
  "target_lines es = map snd (filter (\<lambda>e. fst e \<noteq> Removed) es)"

definition changed :: "diff_line \<Rightarrow> bool" where
  "changed d = (is_removed d \<or> is_added d)"

text \<open>The hunks of a patched file carry every Removed and Added line of the script, with
  the numbers they have in the whole files, and any selection of its Context lines.\<close>

definition hunks_of_script :: "patched_file \<Rightarrow> (kind \<times> string) list \<Rightarrow> bool" where
  "hunks_of_script pf es =
     (filter changed (concat (hunks pf)) = filter changed (number_lines 1 1 es))"

subsection \<open>Counting and ordering of line operations\<close>

definition popped :: "diff_line \<Rightarrow> bool" where
  "popped d = (is_removed d \<and> source_line_no d \<noteq> None)"

definition inserted :: "diff_line \<Rightarrow> bool" where
  "inserted d = (is_added d \<and> target_line_no d \<noteq> None)"

text \<open>The data model of section 3: Removed lines carry a source line number, Added lines
  a target line number.\<close>

definition numbered :: "patched_file \<Rightarrow> bool" where
  "numbered pf =
     (list_all (\<lambda>d. (is_removed d \<longrightarrow> source_line_no d \<noteq> None) \<and>
                    (is_added d \<longrightarrow> target_line_no d \<noteq> None)) (concat (hunks pf)))"

definition removed_count :: "patched_file \<Rightarrow> nat" where
  "removed_count pf = length (filter is_removed (concat (hunks pf)))"

definition added_count :: "patched_file \<Rightarrow> nat" where
  "added_count pf = length (filter is_added (concat (hunks pf)))"

text \<open>The lines of a script that stand in both files.\<close>

definition kept_lines :: "(kind \<times> string) list \<Rightarrow> string list" where
  "kept_lines es = map snd (filter (\<lambda>e. fst e = Context) es)"

subsection \<open>Concrete patch sets\<close>

definition foo_removed :: patched_file where
  "foo_removed = \<lparr>path = ''foo.txt'', target_file = ''/dev/null'', is_removed_file = True,
     is_rename = False, is_added_file = False,
     hunks = [[\<lparr>is_removed = True, is_added = False, source_line_no = Some 1,
                target_line_no = None, line_value = ''x\<newline>''\<rparr>]]\<rparr>"

text \<open>Renames of \<^verbatim>\<open>old.txt\<close> to \<^verbatim>\<open>new.txt\<close> that add a first line: with the prefixes
  of a git diff, the same with a source range \<^verbatim>\<open>0,0\<close>, and without prefixes.\<close>

definition add_first_line :: "hunk list" where
  "add_first_line = [[\<lparr>is_removed = False, is_added = True, source_line_no = None,
                       target_line_no = Some 1, line_value = ''x\<newline>''\<rparr>]]"

definition old_to_new :: patched_file where
  "old_to_new = parsed_file ''a/old.txt'' ''b/new.txt'' False False add_first_line"

definition old_to_new_added :: patched_file where
  "old_to_new_added = parsed_file ''a/old.txt'' ''b/new.txt'' True False add_first_line"

definition old_to_new_bare :: patched_file where
  "old_to_new_bare = parsed_file ''old.txt'' ''new.txt'' False False add_first_line"

subsection \<open>Order of the line operations\<close>

text \<open>The pops and the inserts of the two passes, as sequences of positions.\<close>

fun pop_seq :: "int list \<Rightarrow> string list \<Rightarrow> error + string list" where
  "pop_seq [] content = Inr content"
| "pop_seq (n # ns) content =
     (case py_pop content (n - 1) of Inl e \<Rightarrow> Inl e | Inr content' \<Rightarrow> pop_seq ns content')"

fun insert_seq :: "(int \<times> string) list \<Rightarrow> string list \<Rightarrow> string list" where
  "insert_seq [] content = content"
| "insert_seq ((n, v) # nvs) content = insert_seq nvs (py_insert content (n - 1) v)"

definition removal_of :: "diff_line \<Rightarrow> int option" where
  "removal_of d = (if is_removed d then source_line_no d else None)"

definition insertion_of :: "diff_line \<Rightarrow> (int \<times> string) option" where
  "insertion_of d =
     (if is_added d then map_option (\<lambda>n. (n, line_value d)) (target_line_no d) else None)"

text \<open>The first pass visits the lines of all hunks from the last to the first, the second
  pass from the first to the last.\<close>

definition removal_order :: "patched_file \<Rightarrow> int list" where
  "removal_order pf = List.map_filter removal_of (rev (concat (hunks pf)))"

definition insertion_order :: "patched_file \<Rightarrow> (int \<times> string) list" where
  "insertion_order pf = List.map_filter insertion_of (concat (hunks pf))"

subsection \<open>Line sequences that survive writing and reading\<close>

definition complete_line :: "string \<Rightarrow> bool" where
  "complete_line l = (l \<noteq> [] \<and> last l = CHR 0x0A \<and> CHR 0x0A \<notin> set (butlast l))"

text \<open>Every line but the last ends with its only newline; the last may lack it.\<close>

fun lines_ok :: "string list \<Rightarrow> bool" where
  "lines_ok [] = True"
| "lines_ok [l] = (l \<noteq> [] \<and> CHR 0x0A \<notin> set (butlast l))"
| "lines_ok (l # ls) = (complete_line l \<and> lines_ok ls)"

subsection \<open>More concrete patch sets\<close>

text \<open>Scenario A of the specification: line 2 goes, a new line 2 comes.\<close>

definition scenario_a :: "(kind \<times> string) list" where
  "scenario_a = [(Context, ''a\<newline>''), (Removed, ''b\<newline>''), (Added, ''x\<newline>''),
                 (Context, ''c\<newline>'')]"

definition scenario_a_patch :: patched_file where
  "scenario_a_patch = \<lparr>path = ''f.txt'', target_file = ''b/f.txt'', is_removed_file = False,
     is_rename = False, is_added_file = False, hunks = [number_lines 1 1 scenario_a]\<rparr>"

text \<open>A rename without hunks.\<close>

definition rename_only :: patched_file where
  "rename_only = parsed_file ''a/old.txt'' ''b/new.txt'' False False []"

text \<open>A third line for a file of two lines.\<close>

definition append_c :: patched_file where
  "append_c = parsed_file ''a/f.txt'' ''b/f.txt'' False False
     [[\<lparr>is_removed = False, is_added = True, source_line_no = None,
        target_line_no = Some 3, line_value = ''c\<newline>''\<rparr>]]"

text \<open>Patches whose line numbers lie outside a one-line or two-line file.\<close>

definition far_add :: patched_file where
  "far_add = \<lparr>path = ''f.txt'', target_file = ''b/f.txt'', is_removed_file = False,
     is_rename = False, is_added_file = False,
     hunks = [[\<lparr>is_removed = False, is_added = True, source_line_no = None,
                target_line_no = Some 5, line_value = ''x\<newline>''\<rparr>]]\<rparr>"

definition far_remove :: patched_file where
  "far_remove = \<lparr>path = ''f.txt'', target_file = ''b/f.txt'', is_removed_file = False,
     is_rename = False, is_added_file = False,
     hunks = [[\<lparr>is_removed = True, is_added = False, source_line_no = Some 3,
                target_line_no = None, line_value = ''c\<newline>''\<rparr>]]\<rparr>"

definition zero_remove :: patched_file where
  "zero_remove = \<lparr>path = ''f.txt'', target_file = ''b/f.txt'', is_removed_file = False,
     is_rename = False, is_added_file = False,
     hunks = [[\<lparr>is_removed = True, is_added = False, source_line_no = Some 0,
                target_line_no = None, line_value = ''c\<newline>''\<rparr>]]\<rparr>"

subsection \<open>The state of the process\<close>

text \<open>The working directory is an absolute path of an existing directory, as
  \<^verbatim>\<open>os.getcwd\<close> reports it.\<close>

definition absolute_cwd :: "world \<Rightarrow> bool" where
  "absolute_cwd w = (cwd w \<noteq> [] \<and> hd (cwd w) = CHR ''/'' \<and> cwd w \<in> set (dirs w))"

definition patch_file_path :: "updater \<Rightarrow> string" where
  "patch_file_path self = os_path_join (diff_dir self) (diff_filename self)"

subsection \<open>Concrete runs\<close>

definition manifest_v1 :: string where
  \<open>manifest_v1 = ''{\<newline>    "version": "v1"\<newline>}''\<close>

definition manifest_v2 :: string where
  \<open>manifest_v2 = ''{\<newline>    "version": "v2"\<newline>}''\<close>

definition manifest_v9 :: string where
  \<open>manifest_v9 = ''{\<newline>    "version": "v9"\<newline>}''\<close>

text \<open>A diff of \<^verbatim>\<open>f.txt\<close> alone, a diff that changes the version line of the
  manifest and then removes line 3 of \<^verbatim>\<open>f.txt\<close>, and a diff that only removes that
  line.\<close>

definition diff_f :: string where
  "diff_f = ''--- a/f.txt\<newline>+++ b/f.txt\<newline>@@ -1,3 +1,3 @@\<newline> a\<newline>-b\<newline>+x\<newline> c\<newline>''"

definition diff_manifest_f :: string where
  \<open>diff_manifest_f =
     ''--- a/interface.json\<newline>+++ b/interface.json\<newline>@@ -1,3 +1,3 @@\<newline> {\<newline>'' @
     ''-    "version": "v1"\<newline>+    "version": "v9"\<newline> }\<newline>'' @
     ''--- a/f.txt\<newline>+++ b/f.txt\<newline>@@ -3,1 +2,0 @@\<newline>-c\<newline>''\<close>

definition diff_far :: string where
  "diff_far = ''--- a/f.txt\<newline>+++ b/f.txt\<newline>@@ -3,1 +2,0 @@\<newline>-c\<newline>''"

definition version_patch :: patched_file where
  \<open>version_patch = \<lparr>path = ''interface.json'', target_file = ''b/interface.json'',
     is_removed_file = False, is_rename = False, is_added_file = False,
     hunks = [number_lines 1 1
       [(Context, ''{\<newline>''), (Removed, ''    "version": "v1"\<newline>''),
        (Added, ''    "version": "v9"\<newline>''), (Context, ''}'')]]\<rparr>\<close>

text \<open>The library functions, tabulated on the texts of these runs.\<close>

definition demo_lib :: libs where
  "demo_lib = \<lparr>
     from_string = (\<lambda>s. if s = diff_f then Inr [scenario_a_patch]
                         else if s = diff_manifest_f then Inr [version_patch, far_remove]
                         else if s = diff_far then Inr [far_remove]
                         else Inl ParseError),
     json_load = (\<lambda>s. if s = manifest_v1 then Inr (JObj [(''version'', JStr ''v1'')])
                       else if s = manifest_v9 then Inr (JObj [(''version'', JStr ''v9'')])
                       else Inl JSONError),
     json_dump = (\<lambda>j. if j = JObj [(''version'', JStr ''v2'')] then manifest_v2 else [])\<rparr>"

definition demo_self :: updater where
  "demo_self = \<lparr>base_dir = ''res'', diff_dir = ''patch'', diff_filename = ''v1_v2.diff'',
     current_version = ''v1'', latest_version = ''v2''\<rparr>"

definition demo_world :: "string \<Rightarrow> string \<Rightarrow> world" where
  "demo_world diff_text f_text = \<lparr>cwd = ''/work'', dirs = [''/work'', ''/work/res''],
     files = [''patch/v1_v2.diff'' \<mapsto> diff_text, ''f.txt'' \<mapsto> f_text,
              ''interface.json'' \<mapsto> manifest_v1]\<rparr>"








text \<open>A diff under the packaging prefix whose new line mentions the prefix.\<close>

definition diff_assets :: string where
  "diff_assets = ''--- a/assets/f.txt\<newline>+++ b/assets/f.txt\<newline>@@ -1,1 +1,1 @@\<newline>-icon=old.png\<newline>+icon=assets/logo.png\<newline>''"

section \<open>Properties of the content edit\<close>

lemma py_pop_length: "py_pop xs i = Inr ys \<Longrightarrow> Suc (length ys) = length xs"
  by (auto simp: py_pop_def Let_def split: if_splits)

lemma py_insert_length: "length (py_insert xs i v) = Suc (length xs)"
  by (auto simp: py_insert_def Let_def)

lemma py_pop_at_length: "py_pop (pre @ x # post) (int (length pre)) = Inr (pre @ post)"
  by (simp add: py_pop_def Let_def)

lemma py_insert_at_length: "py_insert (pre @ post) (int (length pre)) x = pre @ x # post"
  by (simp add: py_insert_def Let_def)


lemma remove_lines_append:
  "remove_lines (xs @ ys) c =
     (case remove_lines xs c of Inl e \<Rightarrow> Inl e | Inr c' \<Rightarrow> remove_lines ys c')"
  by (induction xs arbitrary: c) (auto split: option.splits sum.splits)

lemma remove_hunks_concat: "remove_hunks hs c = remove_lines (concat (map rev hs)) c"
  by (induction hs arbitrary: c) (auto simp: remove_lines_append split: sum.splits)

lemma remove_hunks_rev: "remove_hunks (rev hs) c = remove_lines (rev (concat hs)) c"
  by (simp add: remove_hunks_concat rev_concat rev_map)

lemma add_lines_append: "add_lines (xs @ ys) c = add_lines ys (add_lines xs c)"
  by (induction xs arbitrary: c) (auto split: option.splits)

lemma add_hunks_concat: "add_hunks hs c = add_lines (concat hs) c"
  by (induction hs arbitrary: c) (auto simp: add_lines_append)

lemma remove_lines_changed: "remove_lines (filter changed ds) c = remove_lines ds c"
  by (induction ds arbitrary: c) (auto simp: changed_def split: option.splits sum.splits)

lemma add_lines_changed: "add_lines (filter changed ds) c = add_lines ds c"
  by (induction ds arbitrary: c) (auto simp: changed_def split: option.splits)

lemma remove_lines_length:
  "remove_lines ds c = Inr c' \<Longrightarrow> length c' + length (filter popped ds) = length c"
proof (induction ds arbitrary: c)
  case Nil
  then show ?case by simp
next
  case (Cons d ds)
  then show ?case
    by (force simp: popped_def split: if_splits option.splits sum.splits dest: py_pop_length)
qed

lemma add_lines_length:
  "length (add_lines ds c) = length c + length (filter inserted ds)"
  by (induction ds arbitrary: c) (auto simp: inserted_def py_insert_length split: option.splits)

lemma patch_lines_length:
  assumes "patch_lines pf c = Inr c'"
  shows "length c' + length (filter popped (concat (hunks pf)))
         = length c + length (filter inserted (concat (hunks pf)))"
proof -
  from assms obtain k where k: "remove_lines (rev (concat (hunks pf))) c = Inr k"
    and c': "c' = add_lines (concat (hunks pf)) k"
    by (auto simp: patch_lines_def remove_hunks_rev add_hunks_concat split: sum.splits)
  from remove_lines_length [OF k]
  have "length k + length (filter popped (concat (hunks pf))) = length c"
    by (simp add: rev_filter [symmetric])
  with c' show ?thesis by (simp add: add_lines_length)
qed

section \<open>The text layer\<close>

lemma universal_newlines_plain: "CHR 0x0D \<notin> set t \<Longrightarrow> universal_newlines t = t"
  by (induction t rule: universal_newlines.induct) auto

lemma decode_text_plain: "plain_text t \<Longrightarrow> decode_text t = Inr t"
  by (simp add: plain_text_def decode_text_def universal_newlines_plain)

lemma read_text_exists: "read_text fs p = Inr t \<Longrightarrow> os_path_exists fs p"
  by (auto simp: read_text_def os_path_exists_def split: option.splits)

section \<open>The per-file rules\<close>

text \<open>
  C7. A patched file marked as removed: when its path exists the file is deleted and
  nothing else happens (no hunk is applied); when the path does not exist the tree is
  left as it is and no error is raised. Hence a second run of the same patch, against
  the tree the first run left, succeeds as well.
\<close>

theorem removed_file_tolerant:
  assumes "is_removed_file pf"
  shows "(os_path_exists fs (path pf) \<longrightarrow> patch_file pf fs = (None, fs(path pf := None))) \<and>
         (\<not> os_path_exists fs (path pf) \<longrightarrow> patch_file pf fs = (None, fs)) \<and>
         patch_file pf (snd (patch_file pf fs)) = (None, snd (patch_file pf fs))"
  using assms by (auto simp: patch_file_def os_path_exists_def os_remove_def Let_def)

theorem removed_file_tolerant_witness:
  "is_removed_file foo_removed \<and>
   patch_file foo_removed [''foo.txt'' \<mapsto> ''x\<newline>''] = (None, Map.empty) \<and>
   patch_file foo_removed Map.empty = (None, Map.empty)"
  using removed_file_tolerant [of foo_removed "[''foo.txt'' \<mapsto> ''x\<newline>'']"]
        removed_file_tolerant [of foo_removed "Map.empty"]
  by (simp add: foo_removed_def os_path_exists_def)

text \<open>
  C2, as the code has it. The path that \<^verbatim>\<open>apply_patch\<close> tests and renames is the
  attribute \<^verbatim>\<open>path\<close>, which for a rename is the target name. For a renamed file whose
  source path does not exist: when the file is not at the target name either, the rename
  and the rest of the iteration are skipped (line 255 is a \<^verbatim>\<open>continue\<close>), the tree is
  unchanged and no error is raised; when the file is at the target name and the header
  paths carry no prefix, the rename has no effect and the procedure goes on at the target
  path. Nothing is said about a file at the target name under prefixed header paths.
\<close>

theorem rename_missing_source_skips_file:
  assumes "unidiff_is_rename source_file target_file'"
    and "pf = parsed_file source_file target_file' empty_source False hs"
    and "\<not> os_path_exists fs (vcs_path source_file)"
  shows "(\<not> os_path_exists fs (path pf) \<longrightarrow> patch_file pf fs = (None, fs)) \<and>
         (os_path_exists fs (path pf) \<and> path pf = target_file pf \<longrightarrow>
            patch_file pf fs = add_or_edit pf (target_file pf) fs)"
proof -
  from assms(1,2) have k: "\<not> is_removed_file pf" "is_rename pf"
    by (simp_all add: parsed_file_def unidiff_is_rename_def)
  have "os_rename fs (target_file pf) (target_file pf) = fs"
    by (simp add: os_rename_def fun_eq_iff)
  with k show ?thesis by (auto simp: patch_file_def Let_def)
qed

theorem rename_missing_source_skips_file_witness:
  "unidiff_is_rename ''a/old.txt'' ''b/new.txt'' \<and>
   \<not> os_path_exists [''keep.txt'' \<mapsto> ''k\<newline>''] (vcs_path ''a/old.txt'') \<and>
   \<not> os_path_exists [''keep.txt'' \<mapsto> ''k\<newline>''] (path old_to_new) \<and>
   patch_file old_to_new [''keep.txt'' \<mapsto> ''k\<newline>''] = (None, [''keep.txt'' \<mapsto> ''k\<newline>'']) \<and>
   unidiff_is_rename ''old.txt'' ''new.txt'' \<and>
   \<not> os_path_exists [''new.txt'' \<mapsto> ''a\<newline>''] (vcs_path ''old.txt'') \<and>
   os_path_exists [''new.txt'' \<mapsto> ''a\<newline>''] (path old_to_new_bare) \<and>
   path old_to_new_bare = target_file old_to_new_bare \<and>
   patch_file old_to_new_bare [''new.txt'' \<mapsto> ''a\<newline>'']
     = (None, [''new.txt'' \<mapsto> ''x\<newline>a\<newline>''])"
proof -
  have e: "add_or_edit old_to_new_bare (target_file old_to_new_bare) [''new.txt'' \<mapsto> ''a\<newline>'']
           = (None, [''new.txt'' \<mapsto> ''x\<newline>a\<newline>''])"
    by (simp add: old_to_new_bare_def parsed_file_def add_first_line_def add_or_edit_def
        os_path_exists_def edit_file_def read_text_def decode_text_def write_text_def
        encode_text_def patch_lines_def py_insert_def writelines_def)
  from rename_missing_source_skips_file [of "''a/old.txt''" "''b/new.txt''" old_to_new False
      add_first_line "[''keep.txt'' \<mapsto> ''k\<newline>'']"]
    rename_missing_source_skips_file [of "''old.txt''" "''new.txt''" old_to_new_bare False
      add_first_line "[''new.txt'' \<mapsto> ''a\<newline>'']"] e
  show ?thesis
    by (simp add: old_to_new_def old_to_new_bare_def parsed_file_def unidiff_is_rename_def
        unidiff_path_def vcs_path_def DEV_NULL_def os_path_exists_def)
qed

text \<open>
  C2 as stated fails. First, the renamed file has a source range \<^verbatim>\<open>0,0\<close> and is at
  neither name: going on at the target path would create \<^verbatim>\<open>new.txt\<close> with the added
  line, while the iteration is skipped and nothing is created. Second, the file is
  already at the target name and the header paths carry the prefixes of a git diff: the
  rename is not skipped, the file moves from \<^verbatim>\<open>new.txt\<close> to \<^verbatim>\<open>b/new.txt\<close> and the added
  line goes there.
\<close>

theorem rename_missing_source_counterexample:
  "is_rename old_to_new_added \<and> \<not> is_removed_file old_to_new_added \<and>
   \<not> os_path_exists [''b/keep.txt'' \<mapsto> ''k\<newline>''] (vcs_path ''a/old.txt'') \<and>
   snd (add_or_edit old_to_new_added (vcs_path ''b/new.txt'') [''b/keep.txt'' \<mapsto> ''k\<newline>''])
     ''new.txt'' = Some ''x\<newline>'' \<and>
   snd (patch_file old_to_new_added [''b/keep.txt'' \<mapsto> ''k\<newline>'']) ''new.txt'' = None \<and>
   is_rename old_to_new \<and> \<not> is_removed_file old_to_new \<and>
   \<not> os_path_exists [''b/keep.txt'' \<mapsto> ''k\<newline>'', ''new.txt'' \<mapsto> ''a\<newline>'']
        (vcs_path ''a/old.txt'') \<and>
   snd (patch_file old_to_new [''b/keep.txt'' \<mapsto> ''k\<newline>'', ''new.txt'' \<mapsto> ''a\<newline>''])
     ''new.txt'' = None \<and>
   snd (patch_file old_to_new [''b/keep.txt'' \<mapsto> ''k\<newline>'', ''new.txt'' \<mapsto> ''a\<newline>''])
     ''b/new.txt'' = Some ''x\<newline>a\<newline>''"
  by (simp add: old_to_new_def old_to_new_added_def parsed_file_def unidiff_is_rename_def
      unidiff_path_def vcs_path_def DEV_NULL_def add_first_line_def patch_file_def
      add_or_edit_def os_path_exists_def os_rename_def edit_file_def read_text_def
      decode_text_def write_text_def encode_text_def patch_lines_def py_insert_def
      writelines_def)

section \<open>Edit scripts\<close>

lemma remove_script:
  "remove_lines (rev (number_lines (int (length pre) + 1) t es)) (pre @ source_lines es)
   = Inr (pre @ kept_lines es)"
proof (induction es arbitrary: pre t)
  case Nil
  show ?case by (simp add: source_lines_def kept_lines_def)
next
  case (Cons e es)
  obtain k x where e: "e = (k, x)" by (cases e)
  have step: "remove_lines (rev (number_lines (int (length pre) + 1 + 1) t' es))
                ((pre @ [x]) @ source_lines es) = Inr ((pre @ [x]) @ kept_lines es)" for t'
    using Cons.IH [of "pre @ [x]" t'] by (simp add: add.commute add.left_commute)
  show ?case
  proof (cases k)
    case Context
    with e step [of "t + 1"] show ?thesis
      by (simp add: remove_lines_append source_lines_def kept_lines_def)
  next
    case Added
    with e Cons.IH [of pre "t + 1"] show ?thesis
      by (simp add: remove_lines_append source_lines_def kept_lines_def)
  next
    case Removed
    with e step [of t] py_pop_at_length [of pre x "kept_lines es"] show ?thesis
      by (simp add: remove_lines_append source_lines_def kept_lines_def)
  qed
qed

lemma add_script:
  "add_lines (number_lines s (int (length pre) + 1) es) (pre @ kept_lines es)
   = pre @ target_lines es"
proof (induction es arbitrary: pre s)
  case Nil
  show ?case by (simp add: target_lines_def kept_lines_def)
next
  case (Cons e es)
  obtain k x where e: "e = (k, x)" by (cases e)
  have step: "add_lines (number_lines s' (int (length pre) + 1 + 1) es)
                ((pre @ [x]) @ kept_lines es) = (pre @ [x]) @ target_lines es" for s'
    using Cons.IH [of s' "pre @ [x]"] by (simp add: add.commute add.left_commute)
  show ?case
  proof (cases k)
    case Context
    with e step [of "s + 1"] show ?thesis
      by (simp add: target_lines_def kept_lines_def)
  next
    case Added
    with e step [of s] py_insert_at_length [of pre "kept_lines es" x] show ?thesis
      by (simp add: target_lines_def kept_lines_def)
  next
    case Removed
    with e Cons.IH [of "s + 1" pre] show ?thesis
      by (simp add: target_lines_def kept_lines_def)
  qed
qed

lemma patch_lines_script:
  assumes "hunks_of_script pf es"
  shows "patch_lines pf (source_lines es) = Inr (target_lines es)"
proof -
  have "remove_hunks (rev (hunks pf)) (source_lines es)
        = remove_lines (filter changed (rev (concat (hunks pf)))) (source_lines es)"
    by (simp add: remove_hunks_rev remove_lines_changed)
  also have "\<dots> = remove_lines (filter changed (rev (number_lines 1 1 es))) (source_lines es)"
    using assms by (simp add: hunks_of_script_def rev_filter [symmetric])
  also have "\<dots> = Inr (kept_lines es)"
    using remove_script [of "[]" 1 es] by (simp add: remove_lines_changed)
  finally have r: "remove_hunks (rev (hunks pf)) (source_lines es) = Inr (kept_lines es)" .
  have "add_hunks (hunks pf) (kept_lines es)
        = add_lines (filter changed (concat (hunks pf))) (kept_lines es)"
    by (simp add: add_hunks_concat add_lines_changed)
  also have "\<dots> = add_lines (filter changed (number_lines 1 1 es)) (kept_lines es)"
    using assms by (simp add: hunks_of_script_def)
  also have "\<dots> = target_lines es"
    using add_script [of 1 "[]" es] by (simp add: add_lines_changed)
  finally show ?thesis using r by (simp add: patch_lines_def)
qed

section \<open>Writing and reading line sequences\<close>

lemma readlines_line:
  "CHR 0x0A \<notin> set b \<Longrightarrow> readlines (b @ CHR 0x0A # rest) = (b @ [CHR 0x0A]) # readlines rest"
  by (induction b) auto

lemma readlines_last:
  "CHR 0x0A \<notin> set b \<Longrightarrow> readlines (b @ [c]) = [b @ [c]]"
  by (induction b) auto

lemma complete_lineE:
  assumes "complete_line l"
  obtains b where "l = b @ [CHR 0x0A]" and "CHR 0x0A \<notin> set b"
  using assms unfolding complete_line_def by (metis append_butlast_last_id)

lemma readlines_concat: "lines_ok ls \<Longrightarrow> readlines (concat ls) = ls"
proof (induction ls rule: lines_ok.induct)
  case 1
  show ?case by simp
next
  case (2 l)
  then obtain b c where "l = b @ [c]" "CHR 0x0A \<notin> set b"
    by (metis append_butlast_last_id lines_ok.simps(2))
  then show ?case by (simp add: readlines_last)
next
  case (3 l l' ls)
  then obtain b where "l = b @ [CHR 0x0A]" "CHR 0x0A \<notin> set b"
    by (auto elim: complete_lineE)
  with 3 show ?case by (simp add: readlines_line)
qed

lemma lines_ok_readlines: "lines_ok (readlines s)"
proof (induction s)
  case Nil
  show ?case by simp
next
  case (Cons c s)
  show ?case
  proof (cases "c = CHR 0x0A")
    case True
    with Cons show ?thesis by (cases "readlines s") (auto simp: complete_line_def)
  next
    case False
    show ?thesis
    proof (cases "readlines s")
      case Nil
      with False show ?thesis by simp
    next
      case (Cons l ls)
      with False \<open>lines_ok (readlines s)\<close> show ?thesis
        by (cases ls) (auto simp: complete_line_def)
    qed
  qed
qed

lemma numbered_popped: "numbered pf \<Longrightarrow> filter popped (concat (hunks pf)) = filter is_removed (concat (hunks pf))"
  unfolding numbered_def popped_def by (rule filter_cong) (auto simp: list_all_iff)

lemma numbered_inserted: "numbered pf \<Longrightarrow> filter inserted (concat (hunks pf)) = filter is_added (concat (hunks pf))"
  unfolding numbered_def inserted_def by (rule filter_cong) (auto simp: list_all_iff)

section \<open>Order of the line operations\<close>

lemma remove_lines_pop_seq: "remove_lines ds c = pop_seq (List.map_filter removal_of ds) c"
  by (induction ds arbitrary: c)
     (auto simp: List.map_filter_simps removal_of_def split: option.splits sum.splits)

lemma add_lines_insert_seq: "add_lines ds c = insert_seq (List.map_filter insertion_of ds) c"
  by (induction ds arbitrary: c)
     (auto simp: List.map_filter_simps insertion_of_def split: option.splits)

lemma map_filter_rev: "List.map_filter f (rev xs) = rev (List.map_filter f xs)"
  by (simp add: List.map_filter_def rev_map rev_filter)

lemma removal_of_changed: "List.map_filter removal_of (filter changed ds) = List.map_filter removal_of ds"
  by (induction ds) (auto simp: List.map_filter_simps removal_of_def changed_def split: option.splits)

lemma insertion_of_changed: "List.map_filter insertion_of (filter changed ds) = List.map_filter insertion_of ds"
  by (induction ds) (auto simp: List.map_filter_simps insertion_of_def changed_def split: option.splits)

lemma script_removals_ascending:
  "sorted_wrt (<) (List.map_filter removal_of (number_lines s t es)) \<and>
   (\<forall>n \<in> set (List.map_filter removal_of (number_lines s t es)). s \<le> n)"
proof (induction s t es rule: number_lines.induct)
  case (1 s t)
  show ?case by (simp add: List.map_filter_simps)
next
  case (2 s t x es)
  then show ?case by (force simp: List.map_filter_simps removal_of_def)
next
  case (3 s t x es)
  then show ?case by (force simp: List.map_filter_simps removal_of_def)
next
  case (4 s t x es)
  then show ?case by (force simp: List.map_filter_simps removal_of_def)
qed

lemma script_insertions_ascending:
  "sorted_wrt (<) (map fst (List.map_filter insertion_of (number_lines s t es))) \<and>
   (\<forall>n \<in> set (map fst (List.map_filter insertion_of (number_lines s t es))). t \<le> n)"
proof (induction s t es rule: number_lines.induct)
  case (1 s t)
  show ?case by (simp add: List.map_filter_simps)
next
  case (2 s t x es)
  then show ?case by (force simp: List.map_filter_simps insertion_of_def)
next
  case (3 s t x es)
  then show ?case by (force simp: List.map_filter_simps insertion_of_def)
next
  case (4 s t x es)
  then show ?case by (force simp: List.map_filter_simps insertion_of_def)
qed

section \<open>The content edit of one file\<close>

text \<open>
  C3. The first pass pops the source positions of all Removed lines of all hunks, the
  second pass then inserts all Added lines at their target positions. For the hunks of a
  diff (the changed lines of an edit script numbered from line 1) the pops come in strictly
  decreasing order of source line number and the inserts in strictly increasing order of
  target line number, and the two passes turn the file the script starts from into the
  file it describes. Scenario A is the witness.
\<close>

theorem removals_descending_additions_ascending:
  assumes "hunks_of_script pf es"
  shows "remove_hunks (rev (hunks pf)) c = pop_seq (removal_order pf) c \<and>
         add_hunks (hunks pf) c = insert_seq (insertion_order pf) c \<and>
         sorted_wrt (>) (removal_order pf) \<and>
         sorted_wrt (<) (map fst (insertion_order pf)) \<and>
         patch_lines pf (source_lines es) = Inr (target_lines es)"
proof -
  have r: "removal_order pf = rev (List.map_filter removal_of (number_lines 1 1 es))"
    using assms removal_of_changed [of "concat (hunks pf)"]
      removal_of_changed [of "number_lines 1 1 es"]
    by (simp add: removal_order_def hunks_of_script_def map_filter_rev)
  have i: "insertion_order pf = List.map_filter insertion_of (number_lines 1 1 es)"
    using assms insertion_of_changed [of "concat (hunks pf)"]
      insertion_of_changed [of "number_lines 1 1 es"]
    by (simp add: insertion_order_def hunks_of_script_def)
  have "sorted_wrt (>) (removal_order pf)"
    using script_removals_ascending [of 1 1 es] by (simp add: r sorted_wrt_rev)
  moreover have "sorted_wrt (<) (map fst (insertion_order pf))"
    using script_insertions_ascending [of 1 1 es] by (simp add: i)
  moreover have "remove_hunks (rev (hunks pf)) c = pop_seq (removal_order pf) c"
    by (simp add: remove_hunks_rev remove_lines_pop_seq removal_order_def)
  moreover have "add_hunks (hunks pf) c = insert_seq (insertion_order pf) c"
    by (simp add: add_hunks_concat add_lines_insert_seq insertion_order_def)
  ultimately show ?thesis using patch_lines_script [OF assms] by simp
qed

theorem removals_descending_additions_ascending_witness:
  "hunks_of_script scenario_a_patch scenario_a \<and>
   removal_order scenario_a_patch = [2] \<and>
   insertion_order scenario_a_patch = [(2, ''x\<newline>'')] \<and>
   patch_lines scenario_a_patch [''a\<newline>'', ''b\<newline>'', ''c\<newline>'']
     = Inr [''a\<newline>'', ''x\<newline>'', ''c\<newline>'']"
proof -
  have h: "hunks_of_script scenario_a_patch scenario_a"
    by (simp add: hunks_of_script_def scenario_a_patch_def)
  from removals_descending_additions_ascending [OF h]
  have "patch_lines scenario_a_patch (source_lines scenario_a) = Inr (target_lines scenario_a)"
    by simp
  then show ?thesis
    using h
    by (simp add: scenario_a_def scenario_a_patch_def source_lines_def target_lines_def
        removal_order_def insertion_order_def List.map_filter_simps removal_of_def
        insertion_of_def)
qed

text \<open>
  C4, as the code has it. When the content edit of a file succeeds, the line sequence
  written back has as many lines as the sequence read, minus the number of Removed lines,
  plus the number of Added lines of all hunks (every Removed line carrying a source number
  and every Added line a target number, as in the data model). The file then holds the
  concatenation of that sequence, and has that many lines when every written line but the
  last ends with its only newline.
\<close>

theorem line_count_invariant:
  assumes "numbered pf" and "read_text fs p = Inr original"
    and "patch_lines pf (readlines original) = Inr content"
  shows "edit_file pf p fs = (None, fs(p \<mapsto> writelines content)) \<and>
         int (length content)
           = int (length (readlines original)) - int (removed_count pf) + int (added_count pf) \<and>
         (lines_ok content \<longrightarrow>
            int (length (readlines (writelines content)))
              = int (length (readlines original)) - int (removed_count pf)
                + int (added_count pf))"
proof -
  from patch_lines_length [OF assms(3)] assms(1)
  have "length content + removed_count pf = length (readlines original) + added_count pf"
    by (simp add: numbered_popped numbered_inserted removed_count_def added_count_def)
  then show ?thesis
    using assms(2,3)
    by (simp add: edit_file_def write_text_def encode_text_def writelines_def readlines_concat)
qed

theorem line_count_invariant_witness:
  "numbered scenario_a_patch \<and>
   read_text [''f.txt'' \<mapsto> ''a\<newline>b\<newline>c\<newline>''] ''f.txt'' = Inr ''a\<newline>b\<newline>c\<newline>'' \<and>
   patch_lines scenario_a_patch (readlines ''a\<newline>b\<newline>c\<newline>'')
     = Inr [''a\<newline>'', ''x\<newline>'', ''c\<newline>''] \<and>
   removed_count scenario_a_patch = 1 \<and> added_count scenario_a_patch = 1 \<and>
   edit_file scenario_a_patch ''f.txt'' [''f.txt'' \<mapsto> ''a\<newline>b\<newline>c\<newline>'']
     = (None, [''f.txt'' \<mapsto> ''a\<newline>x\<newline>c\<newline>'']) \<and>
   lines_ok [''a\<newline>'', ''x\<newline>'', ''c\<newline>''] \<and>
   length (readlines (writelines [''a\<newline>'', ''x\<newline>'', ''c\<newline>''])) = 3"
proof -
  have n: "numbered scenario_a_patch"
    by (simp add: numbered_def scenario_a_patch_def scenario_a_def)
  have p: "patch_lines scenario_a_patch (readlines ''a\<newline>b\<newline>c\<newline>'')
           = Inr [''a\<newline>'', ''x\<newline>'', ''c\<newline>'']"
    by (simp add: patch_lines_def scenario_a_patch_def scenario_a_def py_pop_def py_insert_def)
  have f: "read_text [''f.txt'' \<mapsto> ''a\<newline>b\<newline>c\<newline>''] ''f.txt''
           = Inr ''a\<newline>b\<newline>c\<newline>''"
    by (simp add: read_text_def decode_text_def)
  have c: "removed_count scenario_a_patch = 1 \<and> added_count scenario_a_patch = 1"
    by (simp add: removed_count_def added_count_def scenario_a_patch_def scenario_a_def)
  have l: "lines_ok [''a\<newline>'', ''x\<newline>'', ''c\<newline>'']"
    by (simp add: complete_line_def)
  from line_count_invariant [where pf = scenario_a_patch and p = "''f.txt''"
      and fs = "[''f.txt'' \<mapsto> ''a\<newline>b\<newline>c\<newline>'']", OF n f p] n f p c l
  show ?thesis
    by (simp add: writelines_def)
qed

text \<open>
  C4 as stated fails: the file \<^verbatim>\<open>a\nb\<close> has two lines, the second without a newline.
  One Added line with target number 3 and no Removed line give three lines by the formula;
  the edit completes, the file holds \<^verbatim>\<open>a\nbc\n\<close>, and that is two lines.
\<close>

theorem line_count_counterexample:
  "numbered append_c \<and> removed_count append_c = 0 \<and> added_count append_c = 1 \<and>
   read_text [''f.txt'' \<mapsto> ''a\<newline>b''] ''f.txt'' = Inr ''a\<newline>b'' \<and>
   length (readlines ''a\<newline>b'') = 2 \<and>
   patch_file append_c [''f.txt'' \<mapsto> ''a\<newline>b''] = (None, [''f.txt'' \<mapsto> ''a\<newline>bc\<newline>'']) \<and>
   read_text [''f.txt'' \<mapsto> ''a\<newline>bc\<newline>''] ''f.txt'' = Inr ''a\<newline>bc\<newline>'' \<and>
   length (readlines ''a\<newline>bc\<newline>'') = 2"
  by (simp add: append_c_def parsed_file_def unidiff_is_rename_def unidiff_path_def
      vcs_path_def DEV_NULL_def numbered_def removed_count_def added_count_def
      patch_file_def add_or_edit_def os_path_exists_def edit_file_def read_text_def
      decode_text_def write_text_def encode_text_def patch_lines_def py_insert_def
      writelines_def)

text \<open>
  C8 fails on the code. For the rename of \<^verbatim>\<open>old.txt\<close> to \<^verbatim>\<open>new.txt\<close> without hunks the
  attribute \<^verbatim>\<open>path\<close> is the target name \<^verbatim>\<open>new.txt\<close>. On a tree that holds the file at
  \<^verbatim>\<open>old.txt\<close> the test of line 246 finds no \<^verbatim>\<open>new.txt\<close>, the iteration is skipped, and
  the file stays where it was: nothing is at the target path.
\<close>

theorem rename_only_leaves_source_in_place:
  "is_rename rename_only \<and> \<not> is_removed_file rename_only \<and> hunks rename_only = [] \<and>
   path rename_only = ''new.txt'' \<and> target_file rename_only = ''b/new.txt'' \<and>
   patch_file rename_only [''old.txt'' \<mapsto> ''a\<newline>b'']
     = (None, [''old.txt'' \<mapsto> ''a\<newline>b''])"
  by (simp add: rename_only_def parsed_file_def unidiff_is_rename_def unidiff_path_def
      vcs_path_def DEV_NULL_def patch_file_def os_path_exists_def)

section \<open>Line numbers outside the file\<close>

lemma py_pop_out_of_range:
  "int (length xs) < n \<or> n \<le> - int (length xs) \<Longrightarrow> py_pop xs (n - 1) = Inl IndexError"
  by (auto simp: py_pop_def Let_def)

lemma py_insert_beyond:
  "int (length xs) < n \<Longrightarrow> py_insert xs (n - 1) v = xs @ [v]"
  by (auto simp: py_insert_def Let_def)

text \<open>
  C5, as the code has it. A Removed line whose source number is greater than the number
  of lines the sequence has at the moment of its deletion (or is not greater than minus that
  number) makes the content edit fail with an \<^verbatim>\<open>IndexError\<close>, and the tree is left as
  it was. An Added line whose target number is more than one past the end of the sequence
  does not fail: \<^verbatim>\<open>list.insert\<close> appends it and the edit goes on.
\<close>

theorem out_of_range_pop_fails_insert_appends:
  assumes "read_text fs p = Inr original"
  shows "(rev (concat (hunks pf)) = xs @ d # ds \<and>
          remove_lines xs (readlines original) = Inr content \<and>
          is_removed d \<and> source_line_no d = Some n \<and>
          (int (length content) < n \<or> n \<le> - int (length content))
          \<longrightarrow> edit_file pf p fs = (Some IndexError, fs)) \<and>
         (is_added d' \<and> target_line_no d' = Some n' \<and> int (length content') + 1 < n'
          \<longrightarrow> add_lines (d' # ds') content' = add_lines ds' (content' @ [line_value d']))"
proof -
  have "edit_file pf p fs = (Some IndexError, fs)"
    if h: "rev (concat (hunks pf)) = xs @ d # ds"
      "remove_lines xs (readlines original) = Inr content"
      "is_removed d" "source_line_no d = Some n"
      "int (length content) < n \<or> n \<le> - int (length content)"
  proof -
    from h(3-5) have "remove_lines (d # ds) content = Inl IndexError"
      by (simp add: py_pop_out_of_range)
    with h(1,2) have "remove_hunks (rev (hunks pf)) (readlines original) = Inl IndexError"
      by (simp add: remove_hunks_rev remove_lines_append)
    with assms show ?thesis by (simp add: edit_file_def patch_lines_def)
  qed
  moreover have "add_lines (d' # ds') content' = add_lines ds' (content' @ [line_value d'])"
    if "is_added d'" "target_line_no d' = Some n'" "int (length content') + 1 < n'"
    using that by (simp add: py_insert_beyond)
  ultimately show ?thesis by blast
qed

theorem out_of_range_pop_fails_insert_appends_witness:
  "edit_file far_remove ''f.txt'' [''f.txt'' \<mapsto> ''a\<newline>''] = (Some IndexError, [''f.txt'' \<mapsto> ''a\<newline>'']) \<and>
   add_lines (hd (hunks far_add)) [''a\<newline>''] = [''a\<newline>'', ''x\<newline>'']"
  using out_of_range_pop_fails_insert_appends [where fs = "[''f.txt'' \<mapsto> ''a\<newline>'']"
      and p = "''f.txt''" and original = "''a\<newline>''" and pf = far_remove and xs = "[]"
      and d = "hd (hd (hunks far_remove))" and ds = "[]" and content = "[''a\<newline>'']" and n = 3
      and d' = "hd (hd (hunks far_add))" and n' = 5 and content' = "[''a\<newline>'']" and ds' = "[]"]
  by (simp add: far_remove_def far_add_def read_text_def decode_text_def)

text \<open>
  C5 as stated fails: an Added line with target number 5 is applied to a file of one
  line, and a Removed line with source number 0 to a file of two lines (\<^verbatim>\<open>pop(-1)\<close>
  takes the last line); both edits complete without an error.
\<close>

theorem out_of_range_counterexample:
  "target_line_no (hd (hd (hunks far_add))) = Some 5 \<and>
   length (readlines ''a\<newline>'') = 1 \<and>
   patch_file far_add [''f.txt'' \<mapsto> ''a\<newline>''] = (None, [''f.txt'' \<mapsto> ''a\<newline>x\<newline>'']) \<and>
   source_line_no (hd (hd (hunks zero_remove))) = Some 0 \<and>
   patch_file zero_remove [''f.txt'' \<mapsto> ''a\<newline>b\<newline>''] = (None, [''f.txt'' \<mapsto> ''a\<newline>''])"
  by (simp add: far_add_def zero_remove_def patch_file_def add_or_edit_def os_path_exists_def
      edit_file_def read_text_def decode_text_def write_text_def encode_text_def
      patch_lines_def py_insert_def py_pop_def writelines_def)

section \<open>The whole call\<close>

lemma os_chdir_frame:
  "os_chdir w d = Inr w' \<Longrightarrow> dirs w' = dirs w \<and> files w' = files w"
  by (auto simp: os_chdir_def Let_def split: if_splits)

lemma os_chdir_back:
  assumes "absolute_cwd w" and "dirs w1 = dirs w"
  shows "os_chdir w1 (cwd w) = Inr (w1\<lparr>cwd := cwd w\<rparr>)"
  using assms by (simp add: os_chdir_def absolute_cwd_def os_path_join_def)

lemma finally_chdir_back:
  assumes "absolute_cwd w" and "dirs w1 = dirs w"
  shows "finally_chdir (cwd w) r w1 = (Inr r, w1\<lparr>cwd := cwd w\<rparr>)"
  using os_chdir_back [OF assms] by (simp add: finally_chdir_def)

text \<open>
  C10. Whatever \<^verbatim>\<open>apply_patch\<close> returns, and wherever an exception stops the work, the
  working directory after the call is the working directory before it (the directory
  before the call being, as \<^verbatim>\<open>os.getcwd\<close> reports it, an absolute path of an existing
  directory).
\<close>

theorem apply_patch_restores_cwd:
  assumes "absolute_cwd w"
  shows "cwd (snd (apply_patch lib self w)) = cwd w"
proof (cases "os_chdir w (base_dir self)")
  case (Inl e)
  then show ?thesis
    using finally_chdir_back [OF assms, of w False] by (simp add: apply_patch_def Let_def)
next
  case (Inr w1)
  then have d: "dirs w1 = dirs w" by (simp add: os_chdir_frame)
  have fin: "cwd (snd (finally_chdir (cwd w) r (w1\<lparr>files := fs\<rparr>))) = cwd w" for r fs
    using finally_chdir_back [OF assms, of "w1\<lparr>files := fs\<rparr>" r] d by simp
  have fin1: "cwd (snd (finally_chdir (cwd w) r w1)) = cwd w" for r
    using finally_chdir_back [OF assms, of w1 r] d by simp
  have fin2: "cwd (snd (finally_chdir (cwd w) r w2)) = cwd w"
    if "os_chdir (w1\<lparr>files := fs\<rparr>) (cwd w) = Inr w2" for r fs w2
    using finally_chdir_back [OF assms, of w2 r] os_chdir_frame [OF that] d by simp
  show ?thesis
    using Inr fin fin1 fin2
    by (simp add: apply_patch_def Let_def split: option.splits sum.splits prod.splits)
qed

theorem apply_patch_restores_cwd_witness:
  "absolute_cwd (demo_world diff_manifest_f ''a\<newline>'') \<and>
   cwd (snd (apply_patch demo_lib demo_self (demo_world diff_manifest_f ''a\<newline>''))) = ''/work'' \<and>
   absolute_cwd (demo_world diff_f ''a\<newline>b\<newline>c\<newline>'') \<and>
   cwd (snd (apply_patch demo_lib demo_self (demo_world diff_f ''a\<newline>b\<newline>c\<newline>''))) = ''/work''"
proof -
  have a: "absolute_cwd (demo_world t f)" for t f
    by (simp add: absolute_cwd_def demo_world_def)
  show ?thesis
    using a apply_patch_restores_cwd [OF a, of demo_lib demo_self diff_manifest_f "''a\<newline>''"]
      apply_patch_restores_cwd [OF a, of demo_lib demo_self diff_f "''a\<newline>b\<newline>c\<newline>''"]
    by (simp add: demo_world_def)
qed

section \<open>The manifest\<close>

lemma edit_file_frame: "p \<noteq> m \<Longrightarrow> snd (edit_file pf p fs) m = fs m"
  by (simp add: edit_file_def write_text_def split: sum.splits)

lemma add_or_edit_frame: "p \<noteq> m \<Longrightarrow> snd (add_or_edit pf p fs) m = fs m"
  by (simp add: add_or_edit_def edit_file_frame write_text_def)

lemma patch_file_frame:
  "path pf \<noteq> m \<Longrightarrow> target_file pf \<noteq> m \<Longrightarrow> snd (patch_file pf fs) m = fs m"
  by (simp add: patch_file_def Let_def os_remove_def os_rename_def add_or_edit_frame)

lemma patch_files_frame:
  "\<forall>pf \<in> set pfs. path pf \<noteq> m \<and> target_file pf \<noteq> m \<Longrightarrow> snd (patch_files pfs fs) m = fs m"
proof (induction pfs arbitrary: fs)
  case Nil
  show ?case by simp
next
  case (Cons pf pfs)
  obtain r fs' where p: "patch_file pf fs = (r, fs')" by (cases "patch_file pf fs")
  with Cons.prems patch_file_frame [of pf m fs] have f: "fs' m = fs m" by simp
  show ?case
  proof (cases r)
    case None
    with p f Cons show ?thesis by simp
  next
    case (Some e)
    with p f show ?thesis by simp
  qed
qed

lemma finally_chdir_files:
  "files (snd (finally_chdir c r w)) = files w"
  by (auto simp: finally_chdir_def dest: os_chdir_frame split: sum.splits)

lemma finally_chdir_eq:
  "finally_chdir c r w = (Inr r', w') \<Longrightarrow> r' = r \<and> files w' = files w"
  by (auto simp: finally_chdir_def dest: os_chdir_frame split: sum.splits)

lemma finally_chdir_fst:
  "fst (finally_chdir c r w) = Inr r' \<Longrightarrow> r' = r"
  by (auto simp: finally_chdir_def split: sum.splits)

lemma apply_patch_True:
  assumes "apply_patch lib self w = (Inr True, w')"
  shows "\<exists>patch_content patchset fs'.
         read_text (files w) (patch_file_path self) = Inr patch_content \<and>
         from_string lib patch_content = Inr patchset \<and>
         patch_files patchset (files w) = (None, fs') \<and>
         update_version lib (latest_version self) fs' = Inr (files w')"
  using assms
  by (auto simp: apply_patch_def Let_def patch_file_path_def
      split: sum.splits option.splits prod.splits
      dest!: finally_chdir_eq os_chdir_frame)

lemma apply_patch_False:
  assumes "fst (apply_patch lib self w) = Inr False"
    and "\<And>patch_content patchset.
       read_text (files w) (patch_file_path self) = Inr patch_content \<Longrightarrow>
       from_string lib patch_content = Inr patchset \<Longrightarrow>
       snd (patch_files patchset (files w)) m = files w m"
  shows "files (snd (apply_patch lib self w)) m = files w m"
proof (cases "os_chdir w (base_dir self)")
  case (Inl e)
  then show ?thesis by (simp add: apply_patch_def Let_def finally_chdir_files)
next
  case (Inr w1)
  then have f1: "files w1 = files w" by (simp add: os_chdir_frame)
  show ?thesis
  proof (cases "read_text (files w) (patch_file_path self)")
    case (Inl e)
    with Inr f1 show ?thesis
      by (simp add: apply_patch_def Let_def patch_file_path_def finally_chdir_files)
  next
    case pc: (Inr patch_content)
    show ?thesis
    proof (cases "from_string lib patch_content")
      case (Inl e)
      with Inr f1 pc show ?thesis
        by (simp add: apply_patch_def Let_def patch_file_path_def finally_chdir_files)
    next
      case ps: (Inr patchset)
      obtain r fs' where pf: "patch_files patchset (files w) = (r, fs')"
        by (cases "patch_files patchset (files w)")
      from assms(2) [OF pc ps] pf have fr: "fs' m = files w m" by simp
      show ?thesis
      proof (cases r)
        case (Some e)
        with Inr f1 pc ps pf fr show ?thesis
          by (simp add: apply_patch_def Let_def patch_file_path_def finally_chdir_files)
      next
        case None
        show ?thesis
        proof (cases "update_version lib (latest_version self) fs'")
          case (Inl e)
          with None Inr f1 pc ps pf fr show ?thesis
            by (simp add: apply_patch_def Let_def patch_file_path_def finally_chdir_files)
        next
          case uv: (Inr fs'')
          show ?thesis
          proof (cases "os_chdir (w1\<lparr>files := fs''\<rparr>) (cwd w)")
            case (Inl e)
            then have "fst (finally_chdir (cwd w) False (w1\<lparr>files := fs''\<rparr>)) = Inl e"
              by (simp add: finally_chdir_def)
            with Inl None Inr f1 pc ps pf uv assms(1) show ?thesis
              by (simp add: apply_patch_def Let_def patch_file_path_def)
          next
            case w2: (Inr w2)
            with None Inr f1 pc ps pf uv assms(1) show ?thesis
              by (auto simp: apply_patch_def Let_def patch_file_path_def
                  dest: finally_chdir_fst)
          qed
        qed
      qed
    qed
  qed
qed

lemmas demo_defs = apply_patch_def demo_lib_def demo_self_def demo_world_def os_chdir_def Let_def
      os_path_join_def finally_chdir_def update_version_def diff_f_def diff_manifest_f_def
      diff_far_def manifest_v1_def manifest_v9_def manifest_v2_def patch_file_path_def
      version_patch_def far_remove_def scenario_a_patch_def scenario_a_def
      patch_file_def add_or_edit_def edit_file_def read_text_def decode_text_def
      write_text_def encode_text_def
      os_path_exists_def patch_lines_def py_pop_def py_insert_def writelines_def

lemma run_ok:
  "fst (apply_patch demo_lib demo_self (demo_world diff_f ''a\<newline>b\<newline>c\<newline>'')) = Inr True"
  by (simp add: demo_defs)

lemma run_far:
  "fst (apply_patch demo_lib demo_self (demo_world diff_far ''a\<newline>'')) = Inr False"
  by (simp add: demo_defs)

lemma run_far_parse:
  "read_text (files (demo_world diff_far ''a\<newline>'')) (patch_file_path demo_self) = Inr diff_far \<and>
   from_string demo_lib diff_far = Inr [far_remove]"
  by (simp add: demo_defs)

text \<open>
  C6, as the code has it. When \<^verbatim>\<open>apply_patch\<close> returns \<^verbatim>\<open>True\<close>, the patch file was
  read and parsed, every patched file of the set was processed without an error, and the
  version of the manifest was rewritten in the tree that this left. When it returns
  \<^verbatim>\<open>False\<close>, the manifest is the file it was before the call, provided that no patched
  file of the set has the manifest as its path or its rename target.
\<close>

theorem manifest_rewritten_after_success_only:
  "(apply_patch lib self w = (Inr True, w') \<longrightarrow>
      (\<exists>patch_content patchset fs'.
         read_text (files w) (patch_file_path self) = Inr patch_content \<and>
         from_string lib patch_content = Inr patchset \<and>
         patch_files patchset (files w) = (None, fs') \<and>
         update_version lib (latest_version self) fs' = Inr (files w'))) \<and>
   (fst (apply_patch lib self w) = Inr False \<and>
    (\<forall>patch_content patchset.
       read_text (files w) (patch_file_path self) = Inr patch_content \<and>
       from_string lib patch_content = Inr patchset \<longrightarrow>
       (\<forall>pf \<in> set patchset. path pf \<noteq> ''interface.json'' \<and>
                            target_file pf \<noteq> ''interface.json''))
    \<longrightarrow> files (snd (apply_patch lib self w)) ''interface.json'' = files w ''interface.json'')"
proof (intro conjI impI)
  assume "apply_patch lib self w = (Inr True, w')"
  then show "\<exists>patch_content patchset fs'.
         read_text (files w) (patch_file_path self) = Inr patch_content \<and>
         from_string lib patch_content = Inr patchset \<and>
         patch_files patchset (files w) = (None, fs') \<and>
         update_version lib (latest_version self) fs' = Inr (files w')"
    by (rule apply_patch_True)
next
  assume a: "fst (apply_patch lib self w) = Inr False \<and>
    (\<forall>patch_content patchset.
       read_text (files w) (patch_file_path self) = Inr patch_content \<and>
       from_string lib patch_content = Inr patchset \<longrightarrow>
       (\<forall>pf \<in> set patchset. path pf \<noteq> ''interface.json'' \<and>
                            target_file pf \<noteq> ''interface.json''))"
  show "files (snd (apply_patch lib self w)) ''interface.json'' = files w ''interface.json''"
  proof (rule apply_patch_False)
    from a show "fst (apply_patch lib self w) = Inr False" by simp
  next
    fix patch_content patchset
    assume "read_text (files w) (patch_file_path self) = Inr patch_content"
      and "from_string lib patch_content = Inr patchset"
    with a have "\<forall>pf \<in> set patchset. path pf \<noteq> ''interface.json'' \<and>
                            target_file pf \<noteq> ''interface.json''"
      by blast
    then show "snd (patch_files patchset (files w)) ''interface.json'' = files w ''interface.json''"
      by (rule patch_files_frame)
  qed
qed


theorem manifest_rewritten_after_success_only_witness:
  "apply_patch demo_lib demo_self (demo_world diff_f ''a\<newline>b\<newline>c\<newline>'')
     = (Inr True, snd (apply_patch demo_lib demo_self (demo_world diff_f ''a\<newline>b\<newline>c\<newline>''))) \<and>
   (\<exists>patch_content patchset fs'.
      read_text (files (demo_world diff_f ''a\<newline>b\<newline>c\<newline>'')) (patch_file_path demo_self)
        = Inr patch_content \<and>
      from_string demo_lib patch_content = Inr patchset \<and>
      patch_files patchset (files (demo_world diff_f ''a\<newline>b\<newline>c\<newline>'')) = (None, fs') \<and>
      update_version demo_lib (latest_version demo_self) fs'
        = Inr (files (snd (apply_patch demo_lib demo_self (demo_world diff_f ''a\<newline>b\<newline>c\<newline>''))))) \<and>
   fst (apply_patch demo_lib demo_self (demo_world diff_far ''a\<newline>'')) = Inr False \<and>
   files (snd (apply_patch demo_lib demo_self (demo_world diff_far ''a\<newline>''))) ''interface.json''
     = Some manifest_v1"
proof -
  have t: "apply_patch demo_lib demo_self (demo_world diff_f ''a\<newline>b\<newline>c\<newline>'')
     = (Inr True, snd (apply_patch demo_lib demo_self (demo_world diff_f ''a\<newline>b\<newline>c\<newline>'')))"
    using run_ok by (simp add: prod_eq_iff)
  have p: "\<forall>patch_content patchset.
       read_text (files (demo_world diff_far ''a\<newline>'')) (patch_file_path demo_self) = Inr patch_content \<and>
       from_string demo_lib patch_content = Inr patchset \<longrightarrow>
       (\<forall>pf \<in> set patchset. path pf \<noteq> ''interface.json'' \<and>
                            target_file pf \<noteq> ''interface.json'')"
    using run_far_parse by (auto simp: far_remove_def)
  have m: "files (demo_world diff_far ''a\<newline>'') ''interface.json'' = Some manifest_v1"
    by (simp add: demo_world_def)
  from manifest_rewritten_after_success_only [of demo_lib demo_self
      "demo_world diff_f ''a\<newline>b\<newline>c\<newline>''"
      "snd (apply_patch demo_lib demo_self (demo_world diff_f ''a\<newline>b\<newline>c\<newline>''))"]
    manifest_rewritten_after_success_only [of demo_lib demo_self
      "demo_world diff_far ''a\<newline>''"
      "snd (apply_patch demo_lib demo_self (demo_world diff_far ''a\<newline>''))"]
    t p m run_far
  show ?thesis by simp
qed

text \<open>
  C6 as stated fails: the diff changes the version line of \<^verbatim>\<open>interface.json\<close> and then
  removes line 3 of a one-line file. The second file raises, \<^verbatim>\<open>apply_patch\<close> returns
  \<^verbatim>\<open>False\<close>, and the manifest holds version \<^verbatim>\<open>v9\<close> where it held \<^verbatim>\<open>v1\<close>.
\<close>

theorem manifest_changed_by_failed_apply_counterexample:
  "files (demo_world diff_manifest_f ''a\<newline>'') ''interface.json'' = Some manifest_v1 \<and>
   json_load demo_lib manifest_v1 = Inr (JObj [(''version'', JStr ''v1'')]) \<and>
   fst (apply_patch demo_lib demo_self (demo_world diff_manifest_f ''a\<newline>'')) = Inr False \<and>
   files (snd (apply_patch demo_lib demo_self (demo_world diff_manifest_f ''a\<newline>'')))
     ''interface.json'' = Some manifest_v9 \<and>
   json_load demo_lib manifest_v9 = Inr (JObj [(''version'', JStr ''v9'')])"
  by (simp add: demo_defs)

section \<open>Round trip\<close>


lemma update_version_frame:
  "update_version lib latest fs = Inr fs' \<Longrightarrow> p \<noteq> ''interface.json'' \<Longrightarrow> fs' p = fs p"
  by (auto simp: update_version_def write_text_def split: sum.splits json.splits)




section \<open>Path normalisation\<close>

text \<open>
  C9 fails on the code: \<^verbatim>\<open>process_diff_content\<close> replaces \<^verbatim>\<open>assets/\<close> in the whole diff
  text. In the diff below the prefix goes from the two header lines, as intended, and also
  from the text of the Added line, which then no longer is the line of the new file.
\<close>

theorem process_diff_content_alters_body_line:
  "process_diff_content demo_self diff_assets Map.empty
   = (True, demo_self,
      [''patch/v1_v2.diff'' \<mapsto>
         ''--- a/f.txt\<newline>+++ b/f.txt\<newline>@@ -1,1 +1,1 @@\<newline>-icon=old.png\<newline>+icon=logo.png\<newline>''])"
  by (simp add: process_diff_content_def demo_self_def diff_assets_def os_path_join_def
      write_text_def encode_text_def)

end
